theory Spec2Isabelle
  imports Complex_Main "HOL-Library.Multiset"
begin

section \<open>Python values and library behaviour the two scripts rely on\<close>

text \<open>
  The repository is two Python scripts: \<^verbatim>\<open>awesome_scraper.py\<close> (link extraction, the
  popularity fetcher, the snapshot writer) and \<^verbatim>\<open>awesome_analyzer.py\<close> (the snapshot
  loader, filtering, sorting). Exceptions are values of \<open>py_error\<close>; a computation that
  may raise returns \<open>py_error + 'a\<close> with \<open>Inl\<close> the exception. A Python \<^verbatim>\<open>str\<close> is a
  \<open>string\<close>; what the scripts do with strings (strip and split at \<^verbatim>\<open>/\<close>, a prefix test,
  comparison, concatenation) is the same on characters and on their UTF-8 bytes. Python's
  integers are \<open>int\<close>. A Python \<^verbatim>\<open>float\<close> is a real number the model does not compute
  with: the one float operation of the scripts, the subtraction in \<^verbatim>\<open>check_rate_limit\<close>,
  is a parameter, and so is \<^verbatim>\<open>time.sleep\<close>, which returns or raises.
  \<^verbatim>\<open>print\<close> is left out.
\<close>

datatype py_error =
  ValueError | AttributeError | KeyError | ConnectionError | FileNotFoundError
  | JSONDecodeError | OverflowError | NotModelled

text \<open>The values \<^verbatim>\<open>json.load\<close> and \<^verbatim>\<open>response.json()\<close> produce. A \<^verbatim>\<open>dict\<close> is an
  association list in insertion order with unique keys.\<close>

datatype pyval =
  PNone | PBool bool | PInt int | PFloat real | PStr string
  | PList "pyval list" | PDict "(string \<times> pyval) list"

text \<open>\<^verbatim>\<open>s.strip(c)\<close> for a one-character argument, \<^verbatim>\<open>s.split(c)\<close> for a one-character
  separator (the result is never empty: \<^verbatim>\<open>"".split("/") == [""]\<close>), and
  \<^verbatim>\<open>s.startswith(p)\<close>.\<close>

definition py_strip :: "char \<Rightarrow> string \<Rightarrow> string" where
  "py_strip c s = rev (dropWhile (\<lambda>x. x = c) (rev (dropWhile (\<lambda>x. x = c) s)))"

fun py_split :: "char \<Rightarrow> string \<Rightarrow> string list" where
  "py_split c [] = [[]]"
| "py_split c (x # xs) =
     (if x = c then [] # py_split c xs
      else (case py_split c xs of w # ws \<Rightarrow> (x # w) # ws | [] \<Rightarrow> [[x]]))"

definition startswith :: "string \<Rightarrow> string \<Rightarrow> bool" where
  "startswith s p = (take (length p) s = p)"

text \<open>\<^verbatim>\<open>d[k] = v\<close> on a dict: an existing key keeps its position, a new key goes last.
  \<^verbatim>\<open>d.get(k, default)\<close> exists on dicts only; on any other value the attribute lookup
  raises \<^verbatim>\<open>AttributeError\<close>.\<close>

fun dict_set :: "string \<Rightarrow> 'v \<Rightarrow> (string \<times> 'v) list \<Rightarrow> (string \<times> 'v) list" where
  "dict_set k v [] = [(k, v)]"
| "dict_set k v (p # ps) = (if fst p = k then (k, v) # ps else p # dict_set k v ps)"

definition py_get :: "pyval \<Rightarrow> string \<Rightarrow> pyval \<Rightarrow> py_error + pyval" where
  "py_get d k dflt =
     (case d of
        PDict kvs \<Rightarrow> (case map_of kvs k of Some v \<Rightarrow> Inr v | None \<Rightarrow> Inr dflt)
      | _ \<Rightarrow> Inl AttributeError)"

text \<open>What the scripts read of \<^verbatim>\<open>urlparse(url)\<close> and of a \<^verbatim>\<open>requests\<close> response.\<close>

record parsed_url =
  netloc :: string
  path :: string

record response =
  status_code :: int
  headers :: "string \<Rightarrow> string option"
  body_text :: string
  json :: "py_error + pyval"

text \<open>The observable actions of a run, in order: each HTTP GET with its request headers,
  and each \<^verbatim>\<open>time.sleep\<close> with its duration in seconds.\<close>

datatype event = Get string "(string \<times> string) list" | Sleep real

text \<open>
  The library and the outside world are parameters of the model: the URL parser
  (\<^verbatim>\<open>urllib.parse.urlparse\<close>), \<^verbatim>\<open>int()\<close> on a header string, the HTTP client (its answer
  may depend on everything done so far), the clock, the subtraction of a float from an
  integer (\<^verbatim>\<open>reset_time - time.time()\<close>: it rounds, and raises when the integer is too
  large for a float), \<^verbatim>\<open>time.sleep\<close> (\<open>None\<close> when it returns after the sleep, the
  exception when it raises and does not sleep), the HTML parser
  (\<^verbatim>\<open>soup.find_all("a", href=True)\<close>, giving the \<^verbatim>\<open>href\<close> values in document order),
  the result of \<^verbatim>\<open>get_github_auth_token()\<close>, whether a path can be created and opened for
  writing, the JSON text \<^verbatim>\<open>json.dump(data, f, indent=4, ensure_ascii=False)\<close> writes and what
  \<^verbatim>\<open>json.load\<close> reads from a text. Every theorem below holds
  for all of them unless it names a concrete one.
\<close>

record env =
  urlparse :: "string \<Rightarrow> py_error + parsed_url"
  py_int :: "string \<Rightarrow> py_error + int"
  requests_get :: "event list \<Rightarrow> string \<Rightarrow> (string \<times> string) list \<Rightarrow> py_error + response"
  time_time :: "event list \<Rightarrow> real"
  int_minus_float :: "int \<Rightarrow> real \<Rightarrow> py_error + real"
  time_sleep :: "real \<Rightarrow> py_error option"
  find_all_a_href :: "string \<Rightarrow> string list"
  get_github_auth_token :: "string option"
  can_write :: "string \<Rightarrow> bool"
  json_dumps :: "pyval \<Rightarrow> string"
  json_loads :: "string \<Rightarrow> py_error + pyval"

section \<open>awesome\_scraper.py\<close>

definition BLACKLISTED_OWNERS :: "string list" where
  "BLACKLISTED_OWNERS =
     [''features'', ''login'', ''explore'', ''marketplace'', ''topics'',
      ''collections'', ''enterprise'', ''solutions'', ''sponsors'']"

definition is_valid_github_repo_url :: "env \<Rightarrow> string \<Rightarrow> py_error + bool" where
  "is_valid_github_repo_url E url =
     (case urlparse E url of
        Inl e \<Rightarrow> Inl e
      | Inr parsed_url \<Rightarrow>
          (let path_parts = py_split CHR ''/'' (py_strip CHR ''/'' (path parsed_url)) in
           if netloc parsed_url = ''github.com'' \<and> length path_parts = 2 then
             (let owner = path_parts ! 0 in
              if owner \<notin> set BLACKLISTED_OWNERS then Inr True else Inr False)
           else Inr False))"

text \<open>The conditional expression of the list comprehension, and the comprehension itself:
  every \<^verbatim>\<open>href\<close> is tested as it stands on the page, and the first exception ends it.\<close>

definition link_target :: "string \<Rightarrow> string" where
  "link_target href = (if startswith href ''http'' then href else ''https://github.com'' @ href)"

fun github_links :: "env \<Rightarrow> string list \<Rightarrow> py_error + string list" where
  "github_links E [] = Inr []"
| "github_links E (href # all_links) =
     (case is_valid_github_repo_url E href of
        Inl e \<Rightarrow> Inl e
      | Inr ok \<Rightarrow>
          (case github_links E all_links of
             Inl e \<Rightarrow> Inl e
           | Inr rest \<Rightarrow> Inr (if ok then link_target href # rest else rest)))"

definition extract_github_links ::
  "env \<Rightarrow> string \<Rightarrow> event list \<Rightarrow> (py_error + string list) \<times> event list" where
  "extract_github_links E url tr =
     (let tr' = tr @ [Get url []] in
      case requests_get E tr url [] of
        Inl e \<Rightarrow> (Inl e, tr')
      | Inr response \<Rightarrow>
          if status_code response \<noteq> 200 then (Inr [], tr')
          else (github_links E (find_all_a_href E (body_text response)), tr'))"

text \<open>\<^verbatim>\<open>int(response.headers.get(name, default))\<close>: the default is already an integer.
  In \<^verbatim>\<open>check_rate_limit\<close> each of the three conversions, the subtraction and the sleep
  can raise; a sleep is in the trace only when \<^verbatim>\<open>time.sleep\<close> returned. \<^verbatim>\<open>max(d, 0)\<close> is
  \<^verbatim>\<open>d\<close> unless \<^verbatim>\<open>0 > d\<close>.\<close>

definition header_int :: "env \<Rightarrow> response \<Rightarrow> string \<Rightarrow> int \<Rightarrow> py_error + int" where
  "header_int E response name dflt =
     (case headers response name of None \<Rightarrow> Inr dflt | Some s \<Rightarrow> py_int E s)"

definition check_rate_limit ::
  "env \<Rightarrow> response \<Rightarrow> event list \<Rightarrow> (py_error + bool) \<times> event list" where
  "check_rate_limit E response tr =
     (case header_int E response ''X-RateLimit-Limit'' 60 of
        Inl e \<Rightarrow> (Inl e, tr)
      | Inr limit \<Rightarrow>
     (case header_int E response ''X-RateLimit-Remaining'' 0 of
        Inl e \<Rightarrow> (Inl e, tr)
      | Inr remaining \<Rightarrow>
     (case header_int E response ''X-RateLimit-Reset'' 0 of
        Inl e \<Rightarrow> (Inl e, tr)
      | Inr reset_time \<Rightarrow>
          if remaining = 0 then
            (case int_minus_float E reset_time (time_time E tr) of
               Inl e \<Rightarrow> (Inl e, tr)
             | Inr d \<Rightarrow>
                 (let sleep_time = max d 0 in
                  case time_sleep E sleep_time of
                    Some e \<Rightarrow> (Inl e, tr)
                  | None \<Rightarrow> (Inr True, tr @ [Sleep sleep_time])))
          else (Inr False, tr))))"

definition base_api_url :: string where
  "base_api_url = ''https://api.github.com/repos''"

text \<open>What one pass through the \<^verbatim>\<open>try\<close> block of the fetcher's loop ends in when nothing
  is raised: a record stored for the URL, a response whose status is not 200, or a path
  with fewer than two segments. An exception is \<open>Inl\<close>; the requests and sleeps made up to
  it stay in the trace.\<close>

datatype attempt = Recorded pyval | Bad_status int | Invalid_format

text \<open>The \<^verbatim>\<open>if response.status_code == 200\<close> statement at the end of the \<^verbatim>\<open>try\<close> block,
  for the response the block ends up with: it makes no request and no sleep.\<close>

definition record_response :: "response \<Rightarrow> py_error + attempt" where
  "record_response response =
     (if status_code response = 200 then
        (case json response of
           Inl e \<Rightarrow> Inl e
         | Inr data \<Rightarrow>
        (case py_get data ''stargazers_count'' (PInt 0) of
           Inl e \<Rightarrow> Inl e
         | Inr stars \<Rightarrow>
        (case py_get data ''forks_count'' (PInt 0) of
           Inl e \<Rightarrow> Inl e
         | Inr forks \<Rightarrow>
        (case py_get data ''watchers_count'' (PInt 0) of
           Inl e \<Rightarrow> Inl e
         | Inr watchers \<Rightarrow>
             Inr (Recorded (PDict [(''stars'', stars), (''forks'', forks),
                                   (''watchers'', watchers)]))))))
      else Inr (Bad_status (status_code response)))"

text \<open>The \<^verbatim>\<open>try\<close> block for one URL; \<open>hdrs\<close> is the source's \<^verbatim>\<open>headers\<close> dict.\<close>

definition try_body ::
  "env \<Rightarrow> (string \<times> string) list \<Rightarrow> string \<Rightarrow> event list \<Rightarrow> (py_error + attempt) \<times> event list" where
  "try_body E hdrs url tr =
     (case urlparse E url of
        Inl e \<Rightarrow> (Inl e, tr)
      | Inr parsed_url \<Rightarrow>
          (let path_parts = py_split CHR ''/'' (py_strip CHR ''/'' (path parsed_url)) in
           if length path_parts \<ge> 2 then
             (let owner = path_parts ! 0;
                  repo_name = path_parts ! 1;
                  api_url = base_api_url @ ''/'' @ owner @ ''/'' @ repo_name;
                  tr1 = tr @ [Get api_url hdrs] in
              case requests_get E tr api_url hdrs of
                Inl e \<Rightarrow> (Inl e, tr1)
              | Inr response \<Rightarrow>
                  (case check_rate_limit E response tr1 of
                     (Inl e, tr2) \<Rightarrow> (Inl e, tr2)
                   | (Inr limited, tr2) \<Rightarrow>
                       if limited then
                         (case requests_get E tr2 api_url hdrs of
                            Inl e \<Rightarrow> (Inl e, tr2 @ [Get api_url hdrs])
                          | Inr response \<Rightarrow> (record_response response, tr2 @ [Get api_url hdrs]))
                       else (record_response response, tr2)))
           else (Inr Invalid_format, tr)))"

text \<open>The \<^verbatim>\<open>for\<close> loop. The state is the dict built so far, the consecutive-failure counter
  and the trace. The source tests the counter against the budget at the end of the
  \<^verbatim>\<open>try\<close> block and again at the end of the \<^verbatim>\<open>except\<close> block; exactly one of the two tests
  runs in an iteration, so the model has one test after the counter is updated.\<close>

fun fetch_loop ::
  "env \<Rightarrow> (string \<times> string) list \<Rightarrow> int \<Rightarrow> string list
     \<Rightarrow> (string \<times> pyval) list \<times> int \<times> event list
     \<Rightarrow> (string \<times> pyval) list \<times> int \<times> event list" where
  "fetch_loop E hdrs max_failures [] st = st"
| "fetch_loop E hdrs max_failures (url # github_urls) (repo_popularity, consecutive_failures, tr) =
     (case try_body E hdrs url tr of
        (Inr (Recorded rec), tr') \<Rightarrow>
          if (0::int) \<ge> max_failures then (dict_set url rec repo_popularity, 0, tr')
          else fetch_loop E hdrs max_failures github_urls (dict_set url rec repo_popularity, 0, tr')
      | (_, tr') \<Rightarrow>
          if consecutive_failures + 1 \<ge> max_failures
          then (repo_popularity, consecutive_failures + 1, tr')
          else fetch_loop E hdrs max_failures github_urls
                 (repo_popularity, consecutive_failures + 1, tr'))"

text \<open>The request headers built before the loop: the token is sent when there is one and
  it is not the empty string (\<^verbatim>\<open>if token:\<close>).\<close>

definition request_headers :: "env \<Rightarrow> (string \<times> string) list" where
  "request_headers E =
     (case get_github_auth_token E of
        None \<Rightarrow> []
      | Some token \<Rightarrow> if token \<noteq> [] then [(''Authorization'', ''token '' @ token)] else [])"

definition get_github_repo_popularity ::
  "env \<Rightarrow> string list \<Rightarrow> int \<Rightarrow> event list \<Rightarrow> (string \<times> pyval) list \<times> event list" where
  "get_github_repo_popularity E github_urls max_failures tr =
     (case fetch_loop E (request_headers E) max_failures github_urls ([], 0, tr) of
        (repo_popularity, consecutive_failures, tr') \<Rightarrow> (repo_popularity, tr'))"


section \<open>awesome\_analyzer.py\<close>









text \<open>
  Filtering and sorting work on a table whose columns \<^verbatim>\<open>url\<close>, \<^verbatim>\<open>stars\<close>, \<^verbatim>\<open>forks\<close>,
  \<^verbatim>\<open>watchers\<close> are present, the last three holding integers: a list of rows in table
  order. \<open>table_of\<close> reads such a table off a frame.
\<close>

record row =
  url :: string
  stars :: int
  forks :: int
  watchers :: int





text \<open>\<^verbatim>\<open>df = df[df[col] >= v]\<close> keeps the rows whose mask is true, in order. A bound that is
  \<^verbatim>\<open>None\<close> leaves the table as it is.\<close>

definition filter_data ::
  "row list \<Rightarrow> int option \<Rightarrow> int option \<Rightarrow> int option \<Rightarrow> int option \<Rightarrow> int option \<Rightarrow> int option
     \<Rightarrow> row list" where
  "filter_data df min_stars max_stars min_forks max_forks min_watchers max_watchers =
     (let df = (case min_stars of None \<Rightarrow> df | Some v \<Rightarrow> filter (\<lambda>r. stars r \<ge> v) df);
          df = (case max_stars of None \<Rightarrow> df | Some v \<Rightarrow> filter (\<lambda>r. stars r \<le> v) df);
          df = (case min_forks of None \<Rightarrow> df | Some v \<Rightarrow> filter (\<lambda>r. forks r \<ge> v) df);
          df = (case max_forks of None \<Rightarrow> df | Some v \<Rightarrow> filter (\<lambda>r. forks r \<le> v) df);
          df = (case min_watchers of None \<Rightarrow> df | Some v \<Rightarrow> filter (\<lambda>r. watchers r \<ge> v) df);
          df = (case max_watchers of None \<Rightarrow> df | Some v \<Rightarrow> filter (\<lambda>r. watchers r \<le> v) df)
      in df)"

text \<open>
  Modelled from the spec: \<^verbatim>\<open>DataFrame.sort_values\<close>, which \<^verbatim>\<open>sort_data\<close> calls and which
  is pandas' code, not the repository's. The spec (4.4): "Sort: single sort key chosen
  from {stars, forks, watchers}, descending by default, ascending on request; ties retain
  relative input order." So \<open>sort_values\<close> is a stable sort of the rows by the key,
  ascending, or a stable sort by the key descending.
\<close>

definition sort_values :: "(row \<Rightarrow> int) \<Rightarrow> bool \<Rightarrow> row list \<Rightarrow> row list" where
  "sort_values key ascending df =
     (if ascending then sort_key key df else sort_key (\<lambda>r. - key r) df)"

text \<open>
  \<^verbatim>\<open>sort_data(df, sort_by="stars", ascending=False)\<close>: an argument that is left out is
  \<open>None\<close> and takes its default. \<open>metric\<close> is the column a name selects among the three
  integer columns; a name that is no column raises \<^verbatim>\<open>KeyError\<close>, and sorting by the text
  column \<^verbatim>\<open>url\<close> is outside the model.
\<close>

definition metric :: "string \<Rightarrow> (row \<Rightarrow> int) option" where
  "metric sort_by =
     (if sort_by = ''stars'' then Some stars
      else if sort_by = ''forks'' then Some forks
      else if sort_by = ''watchers'' then Some watchers
      else None)"

definition sort_data :: "row list \<Rightarrow> string option \<Rightarrow> bool option \<Rightarrow> py_error + row list" where
  "sort_data df sort_by_arg ascending_arg =
     (let sort_by = (case sort_by_arg of None \<Rightarrow> ''stars'' | Some s \<Rightarrow> s);
          ascending = (case ascending_arg of None \<Rightarrow> False | Some b \<Rightarrow> b) in
      case metric sort_by of
        Some key \<Rightarrow> Inr (sort_values key ascending df)
      | None \<Rightarrow> if sort_by = ''url'' then Inl NotModelled else Inl KeyError)"

section \<open>The notions the claims are stated with, and concrete environments\<close>

text \<open>The claims about filtering, in the spec's words: an omitted bound constrains nothing,
  a supplied one is an inclusive comparison, and a row is kept when all six hold. A bound
  is tightened when a minimum is raised, a maximum is lowered or an omitted bound is
  supplied; leaving a bound as it is counts as well.\<close>

definition at_least :: "int option \<Rightarrow> int \<Rightarrow> bool" where
  "at_least lo x = (case lo of None \<Rightarrow> True | Some v \<Rightarrow> x \<ge> v)"

definition at_most :: "int option \<Rightarrow> int \<Rightarrow> bool" where
  "at_most hi x = (case hi of None \<Rightarrow> True | Some v \<Rightarrow> x \<le> v)"

definition satisfies_bounds ::
  "int option \<Rightarrow> int option \<Rightarrow> int option \<Rightarrow> int option \<Rightarrow> int option \<Rightarrow> int option \<Rightarrow> row \<Rightarrow> bool" where
  "satisfies_bounds min_stars max_stars min_forks max_forks min_watchers max_watchers r =
     (at_least min_stars (stars r) \<and> at_most max_stars (stars r)
      \<and> at_least min_forks (forks r) \<and> at_most max_forks (forks r)
      \<and> at_least min_watchers (watchers r) \<and> at_most max_watchers (watchers r))"

definition min_tightened :: "int option \<Rightarrow> int option \<Rightarrow> bool" where
  "min_tightened old new =
     (case old of None \<Rightarrow> True | Some a \<Rightarrow> (case new of None \<Rightarrow> False | Some b \<Rightarrow> a \<le> b))"

definition max_tightened :: "int option \<Rightarrow> int option \<Rightarrow> bool" where
  "max_tightened old new =
     (case old of None \<Rightarrow> True | Some a \<Rightarrow> (case new of None \<Rightarrow> False | Some b \<Rightarrow> b \<le> a))"

text \<open>The table of the spec's example.\<close>

definition demo_table :: "row list" where
  "demo_table =
     [\<lparr>url = ''a/b'', stars = 10, forks = 2, watchers = 1\<rparr>,
      \<lparr>url = ''c/d'', stars = 5, forks = 9, watchers = 0\<rparr>]"

text \<open>The host the validity check sees for a target, when the target parses.\<close>

definition host_of :: "env \<Rightarrow> string \<Rightarrow> string option" where
  "host_of E href = (case urlparse E href of Inl e \<Rightarrow> None | Inr p \<Rightarrow> Some (netloc p))"

text \<open>
  Stand-ins for the library, used where a theorem is run on concrete input. \<open>urlparse_plain\<close>
  splits a URL by the generic syntax as \<^verbatim>\<open>urlparse\<close> does for plain ASCII URLs: an optional
  scheme up to the first colon, a host after \<^verbatim>\<open>//\<close> up to the next \<^verbatim>\<open>/\<close>, \<^verbatim>\<open>?\<close> or \<^verbatim>\<open>#\<close>, and
  the path up to \<^verbatim>\<open>?\<close> or \<^verbatim>\<open>#\<close>. \<open>int_decimal\<close> reads an optionally signed run of decimal
  digits as \<^verbatim>\<open>int()\<close> does and raises \<^verbatim>\<open>ValueError\<close> on any other text it is given here.
\<close>

definition is_scheme_char :: "char \<Rightarrow> bool" where
  "is_scheme_char c =
     (c \<in> set ''abcdefghijklmnopqrstuvwxyzABCDEFGHIJKLMNOPQRSTUVWXYZ0123456789+-.'')"

definition is_ascii_alpha :: "char \<Rightarrow> bool" where
  "is_ascii_alpha c = (c \<in> set ''abcdefghijklmnopqrstuvwxyzABCDEFGHIJKLMNOPQRSTUVWXYZ'')"

definition after_scheme :: "string \<Rightarrow> string" where
  "after_scheme s =
     (let pre = takeWhile (\<lambda>c. c \<noteq> CHR '':'') s in
      if pre \<noteq> [] \<and> length pre < length s \<and> is_ascii_alpha (hd pre)
         \<and> list_all is_scheme_char pre
      then drop (length pre + 1) s else s)"

definition urlparse_plain :: "string \<Rightarrow> py_error + parsed_url" where
  "urlparse_plain s =
     (let rest = after_scheme s;
          has_host = (take 2 rest = ''//'');
          host = (if has_host then takeWhile (\<lambda>c. c \<notin> set ''/?#'') (drop 2 rest) else []);
          rest = (if has_host then dropWhile (\<lambda>c. c \<notin> set ''/?#'') (drop 2 rest) else rest)
      in Inr \<lparr>netloc = host, path = takeWhile (\<lambda>c. c \<notin> set ''?#'') rest\<rparr>)"

fun decimal :: "nat \<Rightarrow> string \<Rightarrow> nat option" where
  "decimal acc [] = Some acc"
| "decimal acc (c # cs) =
     (case map_of [(CHR ''0'', 0), (CHR ''1'', 1), (CHR ''2'', 2), (CHR ''3'', 3), (CHR ''4'', 4),
                   (CHR ''5'', 5), (CHR ''6'', 6), (CHR ''7'', 7), (CHR ''8'', 8), (CHR ''9'', 9)] c of
        None \<Rightarrow> None
      | Some d \<Rightarrow> decimal (10 * acc + d) cs)"

definition int_decimal :: "string \<Rightarrow> py_error + int" where
  "int_decimal s =
     (let neg = (take 1 s = ''-'');
          ds = (if neg \<or> take 1 s = ''+'' then drop 1 s else s) in
      if ds = [] then Inl ValueError
      else (case decimal 0 ds of
              None \<Rightarrow> Inl ValueError
            | Some n \<Rightarrow> Inr (if neg then - int n else int n)))"

text \<open>\<open>sleep_plain\<close> stands for \<^verbatim>\<open>time.sleep\<close>: CPython converts the duration to a signed
  64-bit count of nanoseconds and raises \<^verbatim>\<open>OverflowError\<close> when it does not fit, and
  \<^verbatim>\<open>ValueError\<close> for a negative duration.\<close>

definition sleep_plain :: "real \<Rightarrow> py_error option" where
  "sleep_plain secs =
     (if secs < 0 then Some ValueError
      else if secs * 1000000000 > 9223372036854775807 then Some OverflowError
      else None)"

text \<open>A target passes the check as it stands on the page; the targets of the scraped page
  are the \<^verbatim>\<open>href\<close> values of its anchors when the page was fetched with status 200.\<close>

definition raw_valid :: "env \<Rightarrow> string \<Rightarrow> bool" where
  "raw_valid E href = (is_valid_github_repo_url E href = Inr True)"

definition page_targets :: "env \<Rightarrow> string \<Rightarrow> event list \<Rightarrow> string list" where
  "page_targets E u tr =
     (case requests_get E tr u [] of
        Inl e \<Rightarrow> []
      | Inr resp \<Rightarrow> if status_code resp = 200 then find_all_a_href E (body_text resp) else [])"

text \<open>A base environment of the stand-ins: no URL is reachable, the clock stands at 0,
  the subtraction is exact, there is no token and the JSON library knows no document; the environments below
  replace what they need. Then a page to scrape:
  a list hosted on the repository-hosting domain itself, with five links.\<close>

definition base_env :: env where
  "base_env =
     \<lparr>urlparse = urlparse_plain, py_int = int_decimal,
      requests_get = (\<lambda>tr u hdrs. Inl ConnectionError),
      time_time = (\<lambda>tr. 0), int_minus_float = (\<lambda>i x. Inr (real_of_int i - x)),
      time_sleep = sleep_plain, find_all_a_href = (\<lambda>text. []),
      get_github_auth_token = None, can_write = (\<lambda>p. True),
      json_dumps = (\<lambda>v. []), json_loads = (\<lambda>s. Inl JSONDecodeError)\<rparr>"

definition page_hrefs :: "string list" where
  "page_hrefs =
     [''https://github.com/cliffpyles/awesome_analyzer'', ''/owner/repo'',
      ''//github.com/owner/repo'', ''https://github.com/topics/python'',
      ''https://example.com/owner/repo'']"

definition page_env :: env where
  "page_env =
     base_env
       \<lparr>requests_get := (\<lambda>tr u hdrs.
            if u = ''https://github.com/sindresorhus/awesome''
            then Inr \<lparr>status_code = 200, headers = (\<lambda>n. None), body_text = ''<html>'',
                      json = Inl JSONDecodeError\<rparr>
            else Inl ConnectionError),
        find_all_a_href := (\<lambda>text. if text = ''<html>'' then page_hrefs else [])\<rparr>"

lemmas plain_defs = urlparse_plain_def after_scheme_def is_ascii_alpha_def is_scheme_char_def Let_def

text \<open>
  The claim about the failure budget, in the spec's words. An attempt is a success when
  it stores a record and a failure otherwise (a bad status, a malformed URL, an
  exception). \<open>outcomes\<close> lists what the attempts at the URLs come to, in order.
  \<open>spec_fetch\<close> is the fetcher as the spec describes it: a success stores its record and
  sets the counter to zero, a failure adds one to the counter, and the run stops as soon
  as the counter equals the budget, giving back what was stored until then.
\<close>

datatype outcome = Success pyval | Failure

definition outcome_of :: "py_error + attempt \<Rightarrow> outcome" where
  "outcome_of r = (case r of Inr (Recorded rec) \<Rightarrow> Success rec | _ \<Rightarrow> Failure)"

fun outcomes :: "env \<Rightarrow> (string \<times> string) list \<Rightarrow> string list \<Rightarrow> event list \<Rightarrow> outcome list" where
  "outcomes E hdrs [] tr = []"
| "outcomes E hdrs (u # us) tr =
     outcome_of (fst (try_body E hdrs u tr)) # outcomes E hdrs us (snd (try_body E hdrs u tr))"

fun spec_fetch ::
  "int \<Rightarrow> int \<Rightarrow> (string \<times> outcome) list \<Rightarrow> (string \<times> pyval) list \<Rightarrow> (string \<times> pyval) list" where
  "spec_fetch N counter [] records = records"
| "spec_fetch N counter ((u, Success rec) # rest) records =
     spec_fetch N 0 rest (dict_set u rec records)"
| "spec_fetch N counter ((u, Failure) # rest) records =
     (if counter + 1 = N then records else spec_fetch N (counter + 1) rest records)"

text \<open>
  The same fetcher of the spec, counted instead of collected. \<open>counter_after\<close> is the
  consecutive-failure counter after a sequence of outcomes: zero after a success, one more
  after a failure. \<open>spec_attempted\<close> is the number of URLs attempted until the counter
  equals the budget or the outcomes run out. \<open>trace_of_attempts\<close> is the trace after the
  \<^verbatim>\<open>try\<close> block has run for each of the given URLs in turn, and for no other.
\<close>

fun counter_after :: "int \<Rightarrow> outcome list \<Rightarrow> int" where
  "counter_after counter [] = counter"
| "counter_after counter (Success rec # rest) = counter_after 0 rest"
| "counter_after counter (Failure # rest) = counter_after (counter + 1) rest"

fun spec_attempted :: "int \<Rightarrow> int \<Rightarrow> outcome list \<Rightarrow> nat" where
  "spec_attempted N counter [] = 0"
| "spec_attempted N counter (Success rec # rest) = Suc (spec_attempted N 0 rest)"
| "spec_attempted N counter (Failure # rest) =
     (if counter + 1 = N then 1 else Suc (spec_attempted N (counter + 1) rest))"

fun trace_of_attempts ::
  "env \<Rightarrow> (string \<times> string) list \<Rightarrow> string list \<Rightarrow> event list \<Rightarrow> event list" where
  "trace_of_attempts E hdrs [] tr = tr"
| "trace_of_attempts E hdrs (u # us) tr = trace_of_attempts E hdrs us (snd (try_body E hdrs u tr))"







text \<open>Responses and environments for concrete runs. The API answers for
  \<^verbatim>\<open>owner/repo\<close> with the metrics of the spec's example.\<close>

definition rate_headers :: "string \<Rightarrow> string \<Rightarrow> string \<Rightarrow> string \<Rightarrow> string option" where
  "rate_headers limit remaining reset =
     map_of [(''X-RateLimit-Limit'', limit), (''X-RateLimit-Remaining'', remaining),
             (''X-RateLimit-Reset'', reset)]"

definition repo_body :: pyval where
  "repo_body =
     PDict [(''full_name'', PStr ''owner/repo''), (''stargazers_count'', PInt 10),
            (''forks_count'', PInt 2), (''watchers_count'', PInt 1)]"

definition ok_response :: response where
  "ok_response =
     \<lparr>status_code = 200, headers = rate_headers ''60'' ''59'' ''3700'', body_text = [],
      json = Inr repo_body\<rparr>"

definition limited_response :: response where
  "limited_response =
     \<lparr>status_code = 403, headers = rate_headers ''60'' ''0'' ''100'', body_text = [],
      json = Inr (PDict [(''message'', PStr ''API rate limit exceeded'')])\<rparr>"

definition not_found_response :: response where
  "not_found_response =
     \<lparr>status_code = 404, headers = rate_headers ''60'' ''58'' ''3700'', body_text = [],
      json = Inr (PDict [(''message'', PStr ''Not Found'')])\<rparr>"

text \<open>\<open>budget_env\<close>: the API knows \<^verbatim>\<open>owner/repo\<close> and answers 404 for everything else.
  \<open>limited_env\<close>: the first request of the run finds the quota used up, with the reset at
  time 100 while the clock reads 40; later requests are answered.
  \<open>malformed_env\<close>: the answer reports no quota left and carries a limit header that is
  not a number. \<open>unchecked_env\<close>: the answer's body has a negative count and a count that
  is a string.\<close>

definition budget_env :: env where
  "budget_env =
     base_env
       \<lparr>requests_get := (\<lambda>tr u hdrs.
            if u = ''https://api.github.com/repos/owner/repo'' then Inr ok_response
            else Inr not_found_response)\<rparr>"

definition limited_env :: env where
  "limited_env =
     base_env
       \<lparr>requests_get := (\<lambda>tr u hdrs. if tr = [] then Inr limited_response else Inr ok_response),
        time_time := (\<lambda>tr. 40)\<rparr>"




lemmas fetch_defs = try_body_def check_rate_limit_def header_int_def record_response_def
  py_get_def base_api_url_def py_strip_def rate_headers_def sleep_plain_def







section \<open>Strings: strip and split\<close>

lemma py_split_nonempty: "py_split c s \<noteq> []"
  by (induction s) (auto split: list.splits)

lemma py_strip_no_lead: "py_strip c s = x # t \<Longrightarrow> x \<noteq> c"
proof -
  assume a: "py_strip c s = x # t"
  let ?P = "\<lambda>x. x = c"
  let ?d = "dropWhile ?P s"
  have "dropWhile ?P (rev ?d) = rev t @ [x]"
    using a by (simp add: py_strip_def rev_swap)
  then have "rev ?d = takeWhile ?P (rev ?d) @ rev t @ [x]"
    using takeWhile_dropWhile_id[of ?P "rev ?d"] by simp
  then have "rev (rev ?d) = rev (takeWhile ?P (rev ?d) @ rev t @ [x])"
    by (rule arg_cong)
  then have d: "?d = x # t @ rev (takeWhile ?P (rev ?d))"
    by simp
  then have "?d \<noteq> []" and "hd ?d = x"
    by (metis list.distinct(1), metis list.sel(1))
  then show "x \<noteq> c"
    using hd_dropWhile[of ?P s] by simp
qed

lemma py_strip_no_trail: "py_strip c s = t @ [x] \<Longrightarrow> x \<noteq> c"
proof -
  assume a: "py_strip c s = t @ [x]"
  let ?r = "rev (dropWhile (\<lambda>x. x = c) s)"
  have "dropWhile (\<lambda>x. x = c) ?r = x # rev t"
    using a by (simp add: py_strip_def rev_swap)
  then show "x \<noteq> c"
    using hd_dropWhile[of "\<lambda>x. x = c" ?r] by auto
qed

lemma py_split_two:
  "py_split c s = [a, b] \<Longrightarrow> s = a @ c # b"
proof (induction s arbitrary: a)
  case Nil
  then show ?case by simp
next
  case (Cons x xs)
  show ?case
  proof (cases "x = c")
    case True
    with Cons.prems have ab: "a = []" "py_split c xs = [b]" by auto
    have "xs = b" using ab(2)
    proof (induction xs arbitrary: b)
      case Nil
      then show ?case by simp
    next
      case (Cons y ys)
      then show ?case using py_split_nonempty[of c ys] by (auto split: if_splits list.splits)
    qed
    with True ab show ?thesis by simp
  next
    case False
    with Cons.prems obtain w where "py_split c xs = [w, b]" "a = x # w"
      by (auto split: list.splits)
    with Cons.IH show ?thesis by simp
  qed
qed

lemma py_split_strip_two_nonempty:
  assumes "py_split c (py_strip c s) = [a, b]"
  shows "a \<noteq> [] \<and> b \<noteq> []"
proof -
  have eq: "py_strip c s = a @ c # b" using assms by (rule py_split_two)
  have "a \<noteq> []"
  proof
    assume "a = []"
    with eq have "py_strip c s = c # b" by simp
    then show False using py_strip_no_lead by blast
  qed
  moreover have "b \<noteq> []"
  proof
    assume "b = []"
    with eq have "py_strip c s = a @ [c]" by simp
    then show False using py_strip_no_trail by blast
  qed
  ultimately show ?thesis by simp
qed

lemma length_twoD: "length xs = 2 \<Longrightarrow> \<exists>a b. xs = [a, b]"
  by (cases xs; cases "tl xs"; simp)

lemma parts_two:
  "length (py_split c (py_strip c s)) = 2 \<and> py_split c (py_strip c s) ! 0 \<notin> B \<longleftrightarrow>
   (\<exists>owner repo. py_split c (py_strip c s) = [owner, repo] \<and> owner \<noteq> [] \<and> repo \<noteq> [] \<and> owner \<notin> B)"
  (is "?L \<longleftrightarrow> ?R")
proof (rule iffI)
  assume l: ?L
  then have "\<exists>a b. py_split c (py_strip c s) = [a, b]" by (simp add: length_twoD)
  then obtain a b where ab: "py_split c (py_strip c s) = [a, b]" by (elim exE)
  then have ne: "a \<noteq> [] \<and> b \<noteq> []" by (rule py_split_strip_two_nonempty)
  have "a \<notin> B" using l ab by simp
  with ne ab show ?R by simp
next
  assume ?R
  then obtain a b where "py_split c (py_strip c s) = [a, b]" "a \<notin> B" by (elim exE conjE)
  then show ?L by simp
qed

section \<open>The validity check\<close>

lemma is_valid_parse_error: "urlparse E u = Inl e \<Longrightarrow> is_valid_github_repo_url E u \<noteq> Inr True"
  by (simp add: is_valid_github_repo_url_def)

lemma is_valid_parsed: "urlparse E u = Inr p \<Longrightarrow> 
  is_valid_github_repo_url E u = Inr True \<longleftrightarrow> 
   (netloc p = ''github.com'' \<and> length (py_split CHR ''/'' (py_strip CHR ''/'' (path p))) = 2
     \<and> (py_split CHR ''/'' (py_strip CHR ''/'' (path p))) ! 0 \<notin> set BLACKLISTED_OWNERS)"
  by (cases "netloc p = ''github.com''"; cases "length (py_split CHR ''/'' (py_strip CHR ''/'' (path p))) = 2") (simp_all add: is_valid_github_repo_url_def Let_def)

text \<open>
  C1. For every URL string, the validity check accepts it (returns \<^verbatim>\<open>True\<close>) if and only
  if the URL parses, the parsed host is \<^verbatim>\<open>github.com\<close>, the path stripped of leading and
  trailing slashes splits at \<^verbatim>\<open>/\<close> into exactly two segments, both non-empty, and the
  first segment is not one of the blacklisted names, of which there are nine. The source
  tests only the number of segments; that two segments of a stripped path are non-empty
  is part of what is proved.
\<close>

theorem is_valid_github_repo_url_iff:
  "(is_valid_github_repo_url E u = Inr True \<longleftrightarrow>
      (\<exists>p owner repo. urlparse E u = Inr p \<and> netloc p = ''github.com''
         \<and> py_split CHR ''/'' (py_strip CHR ''/'' (path p)) = [owner, repo]
         \<and> owner \<noteq> [] \<and> repo \<noteq> [] \<and> owner \<notin> set BLACKLISTED_OWNERS))
   \<and> length BLACKLISTED_OWNERS = 9 \<and> distinct BLACKLISTED_OWNERS"
proof -
  have nine: "length BLACKLISTED_OWNERS = 9 \<and> distinct BLACKLISTED_OWNERS"
    by (simp add: BLACKLISTED_OWNERS_def)
  have "is_valid_github_repo_url E u = Inr True \<longleftrightarrow>
      (\<exists>p owner repo. urlparse E u = Inr p \<and> netloc p = ''github.com''
         \<and> py_split CHR ''/'' (py_strip CHR ''/'' (path p)) = [owner, repo]
         \<and> owner \<noteq> [] \<and> repo \<noteq> [] \<and> owner \<notin> set BLACKLISTED_OWNERS)"
  proof (cases "urlparse E u")
    case (Inl e)
    then show ?thesis using is_valid_parse_error[OF Inl] by simp
  next
    case (Inr p)
    have "is_valid_github_repo_url E u = Inr True \<longleftrightarrow>
      (netloc p = ''github.com'' \<and> (\<exists>owner repo. py_split CHR ''/'' (py_strip CHR ''/'' (path p)) = [owner, repo]
         \<and> owner \<noteq> [] \<and> repo \<noteq> [] \<and> owner \<notin> set BLACKLISTED_OWNERS))"
      using is_valid_parsed[OF Inr] parts_two[of "CHR ''/''" "path p" "set BLACKLISTED_OWNERS"] by simp
    then show ?thesis using Inr by simp
  qed
  with nine show ?thesis by simp
qed

section \<open>Filtering\<close>

lemma min_bound_filter:
  "(case lo of None \<Rightarrow> df | Some v \<Rightarrow> filter (\<lambda>r. key r \<ge> v) df)
     = filter (\<lambda>r. at_least lo (key r)) df"
  by (cases lo) (simp_all add: at_least_def)

lemma max_bound_filter:
  "(case hi of None \<Rightarrow> df | Some v \<Rightarrow> filter (\<lambda>r. key r \<le> v) df)
     = filter (\<lambda>r. at_most hi (key r)) df"
  by (cases hi) (simp_all add: at_most_def)

lemma filter_data_filter:
  "filter_data df a b c d e f = filter (satisfies_bounds a b c d e f) df"
  unfolding filter_data_def Let_def min_bound_filter max_bound_filter satisfies_bounds_def
  by (simp add: conj_ac)

lemma at_least_mono: "min_tightened lo lo' \<Longrightarrow> at_least lo' x \<Longrightarrow> at_least lo x"
  by (cases lo; cases lo') (simp_all add: min_tightened_def at_least_def)

lemma at_most_mono: "max_tightened hi hi' \<Longrightarrow> at_most hi' x \<Longrightarrow> at_most hi x"
  by (cases hi; cases hi') (simp_all add: max_tightened_def at_most_def)

lemma length_filter_mono:
  "(\<And>x. Q x \<Longrightarrow> P x) \<Longrightarrow> length (filter Q xs) \<le> length (filter P xs)"
  by (induction xs) auto

text \<open>
  C4. For every table and every combination of the six optional bounds, filtering returns
  the rows of the table that satisfy every supplied bound as an inclusive comparison
  (field at least the minimum, at most the maximum), in table order and as often as they
  occur; an omitted bound imposes nothing. So a row is in the result if and only if it is
  in the table and satisfies all supplied bounds: the filters compose as a conjunction.
\<close>

theorem filter_data_keeps_exactly:
  "filter_data df min_stars max_stars min_forks max_forks min_watchers max_watchers
     = filter (satisfies_bounds min_stars max_stars min_forks max_forks min_watchers max_watchers) df
   \<and> (r \<in> set (filter_data df min_stars max_stars min_forks max_forks min_watchers max_watchers)
        \<longleftrightarrow> r \<in> set df
            \<and> satisfies_bounds min_stars max_stars min_forks max_forks min_watchers max_watchers r)"
  by (simp add: filter_data_filter)

text \<open>
  C5. Filtering is monotone: when each of the six bounds of a second setting is the bound
  of the first setting, tightened or unchanged, the second filtering of a table returns
  at most as many rows as the first.
\<close>

theorem filter_data_monotone:
  assumes "min_tightened min_stars min_stars'" and "max_tightened max_stars max_stars'"
    and "min_tightened min_forks min_forks'" and "max_tightened max_forks max_forks'"
    and "min_tightened min_watchers min_watchers'" and "max_tightened max_watchers max_watchers'"
  shows "length (filter_data df min_stars' max_stars' min_forks' max_forks' min_watchers' max_watchers')
           \<le> length (filter_data df min_stars max_stars min_forks max_forks min_watchers max_watchers)"
proof -
  have "satisfies_bounds min_stars max_stars min_forks max_forks min_watchers max_watchers r"
    if "satisfies_bounds min_stars' max_stars' min_forks' max_forks' min_watchers' max_watchers' r" for r
    using that assms unfolding satisfies_bounds_def
    by (simp add: at_least_mono[of min_stars min_stars'] at_most_mono[of max_stars max_stars']
        at_least_mono[of min_forks min_forks'] at_most_mono[of max_forks max_forks']
        at_least_mono[of min_watchers min_watchers'] at_most_mono[of max_watchers max_watchers'])
  then show ?thesis
    unfolding filter_data_filter by (rule length_filter_mono)
qed

text \<open>On the spec's example table: raising the minimum of stars from none to 6 and lowering
  the maximum of forks from 9 to 8 takes the result from two rows to one.\<close>

theorem filter_data_monotone_witness:
  "min_tightened None (Some 6) \<and> max_tightened None None
   \<and> min_tightened None None \<and> max_tightened (Some 9) (Some 8)
   \<and> min_tightened None None \<and> max_tightened None None
   \<and> length (filter_data demo_table (Some 6) None None (Some 8) None None) = 1
   \<and> length (filter_data demo_table None None None (Some 9) None None) = 2
   \<and> length (filter_data demo_table (Some 6) None None (Some 8) None None)
        \<le> length (filter_data demo_table None None None (Some 9) None None)"
proof -
  have h: "min_tightened None (Some 6)" "max_tightened None None" "min_tightened None None"
    "max_tightened (Some 9) (Some 8)"
    by (simp_all add: min_tightened_def max_tightened_def)
  have e: "length (filter_data demo_table (Some 6) None None (Some 8) None None) = 1"
    "length (filter_data demo_table None None None (Some 9) None None) = 2"
    by (simp_all add: filter_data_def demo_table_def)
  show ?thesis
    using h e filter_data_monotone[OF h(1) h(2) h(3) h(4) h(3) h(2), of demo_table]
    by simp
qed

lemma page_valid:
  "is_valid_github_repo_url page_env ''https://github.com/cliffpyles/awesome_analyzer'' = Inr True"
  "is_valid_github_repo_url page_env ''/owner/repo'' = Inr False"
  "is_valid_github_repo_url page_env ''//github.com/owner/repo'' = Inr True"
  "is_valid_github_repo_url page_env ''https://github.com/topics/python'' = Inr False"
  "is_valid_github_repo_url page_env ''https://example.com/owner/repo'' = Inr False"
  "is_valid_github_repo_url page_env ''https://github.com/owner/repo'' = Inr True"
  by (simp_all add: is_valid_github_repo_url_def page_env_def base_env_def plain_defs
      py_strip_def BLACKLISTED_OWNERS_def)

lemma page_extract:
  "extract_github_links page_env ''https://github.com/sindresorhus/awesome'' [] =
     (Inr [''https://github.com/cliffpyles/awesome_analyzer'',
           ''https://github.com//github.com/owner/repo''],
      [Get ''https://github.com/sindresorhus/awesome'' []])"
  using page_valid
  by (simp add: extract_github_links_def page_hrefs_def link_target_def startswith_def
      page_env_def base_env_def)

section \<open>The link extractor\<close>

lemma github_links_Inr:
  "github_links E hrefs = Inr out \<Longrightarrow> out = map link_target (filter (raw_valid E) hrefs)"
proof (induction hrefs arbitrary: out)
  case Nil
  then show ?case by simp
next
  case (Cons h hs)
  from Cons.prems obtain ok rest where
    ok: "is_valid_github_repo_url E h = Inr ok" and rest: "github_links E hs = Inr rest"
    and out: "out = (if ok then link_target h # rest else rest)"
    by (simp split: sum.splits)
  have "rest = map link_target (filter (raw_valid E) hs)" using rest by (rule Cons.IH)
  then show ?case using ok out by (simp add: raw_valid_def[abs_def])
qed

lemma extract_output:
  assumes "fst (extract_github_links E u tr) = Inr out"
  shows "out = map link_target (filter (raw_valid E) (page_targets E u tr))"
proof (cases "requests_get E tr u []")
  case (Inl e)
  then show ?thesis using assms by (simp add: extract_github_links_def)
next
  case (Inr resp)
  show ?thesis
  proof (cases "status_code resp = 200")
    case True
    then have "github_links E (find_all_a_href E (body_text resp)) = Inr out"
      using assms Inr by (simp add: extract_github_links_def)
    then show ?thesis using Inr True by (simp add: page_targets_def github_links_Inr)
  next
    case False
    then show ?thesis using assms Inr by (simp add: extract_github_links_def page_targets_def)
  qed
qed

lemma raw_valid_host: "raw_valid E h \<Longrightarrow> host_of E h = Some ''github.com''"
proof -
  assume v: "raw_valid E h"
  show ?thesis
  proof (cases "urlparse E h")
    case (Inl e)
    then show ?thesis using v is_valid_parse_error[OF Inl] by (simp add: raw_valid_def)
  next
    case (Inr p)
    then show ?thesis using v is_valid_parsed[OF Inr] by (simp add: raw_valid_def host_of_def)
  qed
qed

lemma link_target_changed: "link_target h \<noteq> h \<Longrightarrow> \<not> startswith h ''http''"
  by (simp add: link_target_def split: if_splits)

lemma filter_host_first:
  "filter (raw_valid E) (filter (\<lambda>h. host_of E h \<noteq> Some []) hs) = filter (raw_valid E) hs"
proof -
  have "raw_valid E h \<Longrightarrow> host_of E h \<noteq> Some []" for h
    using raw_valid_host[of E h] by simp
  then show ?thesis by (induction hs) auto
qed

text \<open>
  C10. The link extractor applies the validity check to each hyperlink target as it
  stands on the page, before any normalization: the output is the list of accepted raw
  targets, each passed through the conditional. So a target whose parsed host is empty
  contributes nothing to the output (the output is the same when such targets are taken
  off the page first), every accepted target parses with host \<^verbatim>\<open>github.com\<close>, and the
  prefixing branch changes a target only if, besides, it does not start with \<^verbatim>\<open>http\<close>.
\<close>

theorem extract_validates_raw_targets:
  assumes "fst (extract_github_links E u tr) = Inr out"
  shows "out = map link_target (filter (raw_valid E) (page_targets E u tr))
       \<and> out = map link_target
                 (filter (raw_valid E) (filter (\<lambda>h. host_of E h \<noteq> Some []) (page_targets E u tr)))
       \<and> (\<forall>h \<in> set (page_targets E u tr). raw_valid E h \<longrightarrow>
            host_of E h = Some ''github.com''
            \<and> (link_target h \<noteq> h \<longrightarrow> \<not> startswith h ''http''))"
proof -
  have a: "out = map link_target (filter (raw_valid E) (page_targets E u tr))"
    using assms by (rule extract_output)
  have b: "out = map link_target
                 (filter (raw_valid E) (filter (\<lambda>h. host_of E h \<noteq> Some []) (page_targets E u tr)))"
    using a by (simp only: filter_host_first)
  have c: "\<forall>h \<in> set (page_targets E u tr). raw_valid E h \<longrightarrow>
            host_of E h = Some ''github.com''
            \<and> (link_target h \<noteq> h \<longrightarrow> \<not> startswith h ''http'')"
    using raw_valid_host link_target_changed by simp
  from a b c show ?thesis by (intro conjI)
qed

lemma page_targets_page:
  "page_targets page_env ''https://github.com/sindresorhus/awesome'' [] = page_hrefs"
  by (simp add: page_targets_def page_env_def base_env_def)

lemma page_raw_valid:
  "filter (raw_valid page_env) page_hrefs =
     [''https://github.com/cliffpyles/awesome_analyzer'', ''//github.com/owner/repo'']"
  using page_valid by (simp add: raw_valid_def page_hrefs_def)

lemma page_hosts:
  "host_of page_env ''/owner/repo'' = Some []"
  "host_of page_env ''//github.com/owner/repo'' = Some ''github.com''"
  by (simp_all add: host_of_def page_env_def base_env_def plain_defs)

text \<open>On the example page: the site-relative \<^verbatim>\<open>/owner/repo\<close> has an empty host and is left
  out; the scheme-relative \<^verbatim>\<open>//github.com/owner/repo\<close> is accepted and prefixed.\<close>

theorem extract_validates_raw_targets_witness:
  "fst (extract_github_links page_env ''https://github.com/sindresorhus/awesome'' []) =
     Inr [''https://github.com/cliffpyles/awesome_analyzer'',
          ''https://github.com//github.com/owner/repo'']
   \<and> ''/owner/repo'' \<in> set (page_targets page_env ''https://github.com/sindresorhus/awesome'' [])
   \<and> host_of page_env ''/owner/repo'' = Some []
   \<and> [''https://github.com/cliffpyles/awesome_analyzer'',
       ''https://github.com//github.com/owner/repo''] =
     map link_target
       (filter (raw_valid page_env)
          (filter (\<lambda>h. host_of page_env h \<noteq> Some [])
             (page_targets page_env ''https://github.com/sindresorhus/awesome'' [])))
   \<and> raw_valid page_env ''//github.com/owner/repo''
   \<and> host_of page_env ''//github.com/owner/repo'' = Some ''github.com''
   \<and> link_target ''//github.com/owner/repo'' = ''https://github.com//github.com/owner/repo''
   \<and> \<not> startswith ''//github.com/owner/repo'' ''http''"
proof -
  have e: "fst (extract_github_links page_env ''https://github.com/sindresorhus/awesome'' []) =
     Inr [''https://github.com/cliffpyles/awesome_analyzer'',
          ''https://github.com//github.com/owner/repo'']"
    by (simp add: page_extract)
  have m: "''/owner/repo'' \<in> set (page_targets page_env ''https://github.com/sindresorhus/awesome'' [])"
    by (simp add: page_targets_page page_hrefs_def)
  have v: "raw_valid page_env ''//github.com/owner/repo''"
    using page_valid(3) by (simp add: raw_valid_def)
  have l: "link_target ''//github.com/owner/repo'' = ''https://github.com//github.com/owner/repo''"
    "\<not> startswith ''//github.com/owner/repo'' ''http''"
    by (simp_all add: link_target_def startswith_def)
  note t = extract_validates_raw_targets[OF e]
  from t have t2: "[''https://github.com/cliffpyles/awesome_analyzer'',
       ''https://github.com//github.com/owner/repo''] =
     map link_target
       (filter (raw_valid page_env)
          (filter (\<lambda>h. host_of page_env h \<noteq> Some [])
             (page_targets page_env ''https://github.com/sindresorhus/awesome'' [])))"
    by (elim conjE)
  from e m page_hosts(1) t2 v page_hosts(2) l show ?thesis by (intro conjI)
qed

text \<open>
  C8. The claim is that a relative hyperlink target, one with no host, comes out
  normalized. The conditional of the comprehension is written for that: given
  \<^verbatim>\<open>/owner/repo\<close> it produces \<^verbatim>\<open>https://github.com/owner/repo\<close>, which passes the validity
  check. But the comprehension tests the target as it stands on the page, where its host
  is empty, so the conditional never receives it: on the example page, itself hosted on
  \<^verbatim>\<open>github.com\<close>, the target is on the page and the output does not contain its
  normalized form.
\<close>

theorem relative_target_dropped:
  "''/owner/repo'' \<in> set (page_targets page_env ''https://github.com/sindresorhus/awesome'' [])
   \<and> host_of page_env ''/owner/repo'' = Some []
   \<and> link_target ''/owner/repo'' = ''https://github.com/owner/repo''
   \<and> raw_valid page_env ''https://github.com/owner/repo''
   \<and> is_valid_github_repo_url page_env ''/owner/repo'' = Inr False
   \<and> fst (extract_github_links page_env ''https://github.com/sindresorhus/awesome'' []) =
       Inr [''https://github.com/cliffpyles/awesome_analyzer'',
            ''https://github.com//github.com/owner/repo'']
   \<and> ''https://github.com/owner/repo''
        \<notin> set [''https://github.com/cliffpyles/awesome_analyzer'',
                ''https://github.com//github.com/owner/repo'']"
proof -
  have m: "''/owner/repo'' \<in> set (page_targets page_env ''https://github.com/sindresorhus/awesome'' [])"
    by (simp add: page_targets_page page_hrefs_def)
  have l: "link_target ''/owner/repo'' = ''https://github.com/owner/repo''"
    by (simp add: link_target_def startswith_def)
  have v: "raw_valid page_env ''https://github.com/owner/repo''"
    using page_valid(6) by (simp add: raw_valid_def)
  have e: "fst (extract_github_links page_env ''https://github.com/sindresorhus/awesome'' []) =
       Inr [''https://github.com/cliffpyles/awesome_analyzer'',
            ''https://github.com//github.com/owner/repo'']"
    by (simp add: page_extract)
  have n: "''https://github.com/owner/repo''
        \<notin> set [''https://github.com/cliffpyles/awesome_analyzer'',
                ''https://github.com//github.com/owner/repo'']"
    by simp
  from m page_hosts(1) l v page_valid(2) e n show ?thesis by (intro conjI)
qed

section \<open>The failure budget\<close>

lemma fetch_loop_step:
  "fetch_loop E hdrs N (u # us) (pop, c, tr) =
     (case outcome_of (fst (try_body E hdrs u tr)) of
        Success rec \<Rightarrow>
          if 0 \<ge> N then (dict_set u rec pop, 0, snd (try_body E hdrs u tr))
          else fetch_loop E hdrs N us (dict_set u rec pop, 0, snd (try_body E hdrs u tr))
      | Failure \<Rightarrow>
          if c + 1 \<ge> N then (pop, c + 1, snd (try_body E hdrs u tr))
          else fetch_loop E hdrs N us (pop, c + 1, snd (try_body E hdrs u tr)))"
  by (cases "try_body E hdrs u tr")
     (simp add: outcome_of_def split: sum.splits attempt.splits)

lemma fetch_loop_refines:
  "1 \<le> N \<Longrightarrow> 0 \<le> c \<Longrightarrow> c < N \<Longrightarrow>
   fst (fetch_loop E hdrs N us (pop, c, tr)) = spec_fetch N c (zip us (outcomes E hdrs us tr)) pop"
proof (induction us arbitrary: pop c tr)
  case Nil
  then show ?case by simp
next
  case (Cons u us)
  show ?case
  proof (cases "outcome_of (fst (try_body E hdrs u tr))")
    case (Success rec)
    have "\<not> 0 \<ge> N" using Cons.prems by simp
    then show ?thesis
      using Success Cons.IH[of 0 "dict_set u rec pop" "snd (try_body E hdrs u tr)"] Cons.prems
      by (simp del: fetch_loop.simps add: fetch_loop_step)
  next
    case Failure
    show ?thesis
    proof (cases "c + 1 = N")
      case True
      then show ?thesis using Failure
        by (simp del: fetch_loop.simps add: fetch_loop_step)
    next
      case False
      then have lt: "c + 1 < N" "0 \<le> c + 1" "\<not> c + 1 \<ge> N" using Cons.prems by simp_all
      show ?thesis
        using Failure False lt Cons.IH[of "c + 1" pop "snd (try_body E hdrs u tr)"] Cons.prems(1)
        by (simp del: fetch_loop.simps add: fetch_loop_step)
    qed
  qed
qed

lemma fetch_loop_trace_exact:
  "1 \<le> N \<Longrightarrow> 0 \<le> c \<Longrightarrow> c < N \<Longrightarrow>
   snd (snd (fetch_loop E hdrs N us (pop, c, tr)))
     = trace_of_attempts E hdrs (take (spec_attempted N c (outcomes E hdrs us tr)) us) tr"
proof (induction us arbitrary: pop c tr)
  case Nil
  then show ?case by simp
next
  case (Cons u us)
  show ?case
  proof (cases "outcome_of (fst (try_body E hdrs u tr))")
    case (Success rec)
    have "\<not> 0 \<ge> N" using Cons.prems by simp
    then show ?thesis
      using Success Cons.IH[of 0 "dict_set u rec pop" "snd (try_body E hdrs u tr)"] Cons.prems
      by (simp del: fetch_loop.simps add: fetch_loop_step)
  next
    case Failure
    show ?thesis
    proof (cases "c + 1 = N")
      case True
      then show ?thesis using Failure
        by (simp del: fetch_loop.simps add: fetch_loop_step)
    next
      case False
      then have lt: "c + 1 < N" "0 \<le> c + 1" "\<not> c + 1 \<ge> N" using Cons.prems by simp_all
      show ?thesis
        using Failure False lt Cons.IH[of "c + 1" pop "snd (try_body E hdrs u tr)"] Cons.prems(1)
        by (simp del: fetch_loop.simps add: fetch_loop_step)
    qed
  qed
qed

lemma spec_attempted_le: "spec_attempted N c os \<le> length os"
  by (induction N c os rule: spec_attempted.induct) auto

lemma length_outcomes: "length (outcomes E hdrs us tr) = length us"
  by (induction us arbitrary: tr) auto

lemma counter_below:
  "0 \<le> c \<Longrightarrow> c < N \<Longrightarrow> j < spec_attempted N c os \<Longrightarrow> counter_after c (take j os) < N"
proof (induction N c os arbitrary: j rule: spec_attempted.induct)
  case (1 N counter)
  then show ?case by simp
next
  case (2 N counter rec rest)
  show ?case
  proof (cases j)
    case 0
    then show ?thesis using "2.prems" by simp
  next
    case (Suc i)
    then have "i < spec_attempted N 0 rest" using "2.prems" by simp
    then have "counter_after 0 (take i rest) < N" using "2.IH"[of i] "2.prems" by simp
    then show ?thesis using Suc by simp
  qed
next
  case (3 N counter rest)
  show ?case
  proof (cases j)
    case 0
    then show ?thesis using "3.prems" by simp
  next
    case (Suc i)
    show ?thesis
    proof (cases "counter + 1 = N")
      case True
      then show ?thesis using Suc "3.prems" by simp
    next
      case False
      then have "i < spec_attempted N (counter + 1) rest" "0 \<le> counter + 1" "counter + 1 < N"
        using Suc "3.prems" by simp_all
      then have "counter_after (counter + 1) (take i rest) < N" using "3.IH"[OF False] by simp
      then show ?thesis using Suc by simp
    qed
  qed
qed

lemma counter_reached:
  "spec_attempted N c os < length os \<Longrightarrow> counter_after c (take (spec_attempted N c os) os) = N"
  by (induction N c os rule: spec_attempted.induct) auto

lemma drop_length_plus: "drop (length xs + k) (xs @ ys) = drop k ys"
  by simp

text \<open>When the spec's fetcher stops before the end, having started with the counter at
  \<open>c\<close>: the outcomes attempted, preceded by \<open>c\<close> failures, end in \<open>N\<close> failures.\<close>

lemma spec_attempted_stop:
  "0 \<le> c \<Longrightarrow> c < N \<Longrightarrow> spec_attempted N c os < length os \<Longrightarrow>
   drop (nat c + spec_attempted N c os - nat N)
        (replicate (nat c) Failure @ take (spec_attempted N c os) os) = replicate (nat N) Failure"
proof (induction N c os rule: spec_attempted.induct)
  case (1 N counter)
  then show ?case by simp
next
  case (2 N counter rec rest)
  let ?n = "spec_attempted N 0 rest"
  have lt: "?n < length rest" using "2.prems" by simp
  have ih: "drop (?n - nat N) (take ?n rest) = replicate (nat N) Failure"
    using "2.IH" "2.prems" lt by simp
  have "length (drop (?n - nat N) (take ?n rest)) = nat N" using ih by simp
  then have ge: "nat N \<le> ?n" using lt by simp
  have idx: "nat counter + Suc ?n - nat N
               = length (replicate (nat counter) Failure @ [Success rec]) + (?n - nat N)"
    using ge by simp
  have "drop (nat counter + Suc ?n - nat N)
          ((replicate (nat counter) Failure @ [Success rec]) @ take ?n rest)
        = drop (?n - nat N) (take ?n rest)"
    unfolding idx by (rule drop_length_plus)
  then show ?case using ih by simp
next
  case (3 N counter rest)
  show ?case
  proof (cases "counter + 1 = N")
    case True
    then have "nat N = Suc (nat counter)" using "3.prems" by simp
    then show ?thesis using True by (simp add: replicate_append_same)
  next
    case False
    let ?n = "spec_attempted N (counter + 1) rest"
    have p: "0 \<le> counter + 1" "counter + 1 < N" "?n < length rest"
      using False "3.prems" by simp_all
    have ih: "drop (nat (counter + 1) + ?n - nat N)
               (replicate (nat (counter + 1)) Failure @ take ?n rest) = replicate (nat N) Failure"
      using "3.IH"[OF False p] .
    have e1: "spec_attempted N counter (Failure # rest) = Suc ?n" using False by simp
    have e2: "take (Suc ?n) (Failure # rest) = Failure # take ?n rest" by simp
    have n: "nat (counter + 1) = Suc (nat counter)" using "3.prems" by simp
    have e3: "replicate (nat counter) Failure @ Failure # take ?n rest
            = replicate (nat (counter + 1)) Failure @ take ?n rest"
      by (simp add: n replicate_app_Cons_same)
    have e4: "nat counter + Suc ?n = nat (counter + 1) + ?n" using n by simp
    show ?thesis by (simp only: e1 e2 e3 e4 ih)
  qed
qed











lemma budget_attempts:
  "try_body budget_env [] ''https://github.com/owner/repo'' tr =
     (Inr (Recorded (PDict [(''stars'', PInt 10), (''forks'', PInt 2), (''watchers'', PInt 1)])),
      tr @ [Get ''https://api.github.com/repos/owner/repo'' []])"
  "try_body budget_env [] ''https://github.com/gone/repo'' tr =
     (Inr (Bad_status 404), tr @ [Get ''https://api.github.com/repos/gone/repo'' []])"
  "try_body budget_env [] ''https://github.com/solo'' tr = (Inr Invalid_format, tr)"
  by (simp_all add: fetch_defs budget_env_def base_env_def plain_defs int_decimal_def
      ok_response_def not_found_response_def repo_body_def)

lemma limited_attempt:
  "try_body limited_env [] ''https://github.com/owner/repo'' [] =
     (Inr (Recorded (PDict [(''stars'', PInt 10), (''forks'', PInt 2), (''watchers'', PInt 1)])),
      [Get ''https://api.github.com/repos/owner/repo'' [], Sleep 60,
       Get ''https://api.github.com/repos/owner/repo'' []])"
  by (simp add: fetch_defs limited_env_def base_env_def plain_defs int_decimal_def
      ok_response_def limited_response_def repo_body_def)



lemma popularity_fst:
  "fst (get_github_repo_popularity E urls N tr)
     = fst (fetch_loop E (request_headers E) N urls ([], 0, tr))"
  by (cases "fetch_loop E (request_headers E) N urls ([], 0, tr)")
     (simp add: get_github_repo_popularity_def)

lemma popularity_snd:
  "snd (get_github_repo_popularity E urls N tr)
     = snd (snd (fetch_loop E (request_headers E) N urls ([], 0, tr)))"
  by (cases "fetch_loop E (request_headers E) N urls ([], 0, tr)")
     (simp add: get_github_repo_popularity_def)

text \<open>
  C2. For every sequence of URLs, whatever the attempts at them come to, and every
  budget N of at least 1: the popularity fetcher attempts the URLs in order, the first
  \<open>n\<close> of them and no other, where \<open>n\<close> is the number the spec's fetcher attempts on the
  outcomes (the counter set to zero after a success, one more after a failure, stop as
  soon as it equals N). Before each attempt the counter is below N; when URLs are left
  over, the counter is N after the last attempt, which is to say that the last N
  attempts failed. The fetcher returns the records stored by the successes among the
  attempts made, and the trace of the run is the trace of these \<open>n\<close> attempts: nothing is
  requested for a URL after the stop.
\<close>

theorem fetcher_stops_at_budget:
  assumes "1 \<le> N"
    and "os = outcomes E (request_headers E) urls tr"
    and "n = spec_attempted N 0 os"
  shows "get_github_repo_popularity E urls N tr
           = (spec_fetch N 0 (zip urls os) [],
              trace_of_attempts E (request_headers E) (take n urls) tr)
         \<and> n \<le> length urls
         \<and> (\<forall>j<n. counter_after 0 (take j os) < N)
         \<and> (n < length urls \<longrightarrow>
              counter_after 0 (take n os) = N \<and> nat N \<le> n
              \<and> drop (n - nat N) (take n os) = replicate (nat N) Failure)"
proof -
  let ?h = "request_headers E"
  have len: "length os = length urls" using assms(2) by (simp add: length_outcomes)
  have f: "fst (fetch_loop E ?h N urls ([], 0, tr)) = spec_fetch N 0 (zip urls os) []"
    using assms(1,2) by (simp add: fetch_loop_refines)
  have s: "snd (snd (fetch_loop E ?h N urls ([], 0, tr)))
             = trace_of_attempts E ?h (take n urls) tr"
    using assms by (simp add: fetch_loop_trace_exact)
  have a: "get_github_repo_popularity E urls N tr
           = (spec_fetch N 0 (zip urls os) [], trace_of_attempts E ?h (take n urls) tr)"
    using f s by (simp add: prod_eq_iff popularity_fst popularity_snd)
  have b: "n \<le> length urls" using assms(3) len spec_attempted_le[of N 0 os] by simp
  have c: "\<forall>j<n. counter_after 0 (take j os) < N"
    using assms(1,3) by (simp add: counter_below)
  have d: "n < length urls \<longrightarrow>
              counter_after 0 (take n os) = N \<and> nat N \<le> n
              \<and> drop (n - nat N) (take n os) = replicate (nat N) Failure"
  proof
    assume lt: "n < length urls"
    then have lt': "spec_attempted N 0 os < length os" using assms(3) len by simp
    have d1: "counter_after 0 (take n os) = N"
      using counter_reached[OF lt'] assms(3) by simp
    have d3: "drop (n - nat N) (take n os) = replicate (nat N) Failure"
      using spec_attempted_stop[of 0 N os] lt' assms(1,3) by simp
    then have "length (drop (n - nat N) (take n os)) = nat N" by simp
    then have d2: "nat N \<le> n" using lt len by simp
    from d1 d2 d3 show "counter_after 0 (take n os) = N \<and> nat N \<le> n
              \<and> drop (n - nat N) (take n os) = replicate (nat N) Failure"
      by (intro conjI)
  qed
  from a b c d show ?thesis by (intro conjI)
qed

lemma budget_headers: "request_headers budget_env = []"
  by (simp add: request_headers_def budget_env_def base_env_def)

lemma budget_outcomes:
  "outcomes budget_env (request_headers budget_env)
       [''https://github.com/owner/repo'', ''https://github.com/gone/repo'',
        ''https://github.com/solo'', ''https://github.com/owner/repo'',
        ''https://github.com/owner/repo''] []
     = [Success (PDict [(''stars'', PInt 10), (''forks'', PInt 2), (''watchers'', PInt 1)]),
        Failure, Failure,
        Success (PDict [(''stars'', PInt 10), (''forks'', PInt 2), (''watchers'', PInt 1)]),
        Success (PDict [(''stars'', PInt 10), (''forks'', PInt 2), (''watchers'', PInt 1)])]"
  by (simp add: budget_headers budget_attempts outcome_of_def)


text \<open>A run with budget 2 over five URLs: a success, a 404, a URL with a single path
  segment. The spec's fetcher attempts three URLs; the run is these three attempts, with
  one record and two requests, and the two URLs after the stop are not requested.\<close>

theorem fetcher_stops_at_budget_witness:
  "(1::int) \<le> 2
   \<and> outcomes budget_env (request_headers budget_env)
       [''https://github.com/owner/repo'', ''https://github.com/gone/repo'',
        ''https://github.com/solo'', ''https://github.com/owner/repo'',
        ''https://github.com/owner/repo''] []
     = [Success (PDict [(''stars'', PInt 10), (''forks'', PInt 2), (''watchers'', PInt 1)]),
        Failure, Failure,
        Success (PDict [(''stars'', PInt 10), (''forks'', PInt 2), (''watchers'', PInt 1)]),
        Success (PDict [(''stars'', PInt 10), (''forks'', PInt 2), (''watchers'', PInt 1)])]
   \<and> spec_attempted 2 0
       [Success (PDict [(''stars'', PInt 10), (''forks'', PInt 2), (''watchers'', PInt 1)]),
        Failure, Failure,
        Success (PDict [(''stars'', PInt 10), (''forks'', PInt 2), (''watchers'', PInt 1)]),
        Success (PDict [(''stars'', PInt 10), (''forks'', PInt 2), (''watchers'', PInt 1)])] = 3
   \<and> get_github_repo_popularity budget_env
       [''https://github.com/owner/repo'', ''https://github.com/gone/repo'',
        ''https://github.com/solo'', ''https://github.com/owner/repo'',
        ''https://github.com/owner/repo''] 2 []
     = ([(''https://github.com/owner/repo'',
          PDict [(''stars'', PInt 10), (''forks'', PInt 2), (''watchers'', PInt 1)])],
        [Get ''https://api.github.com/repos/owner/repo'' [],
         Get ''https://api.github.com/repos/gone/repo'' []])
   \<and> counter_after 0
       (take 3
         [Success (PDict [(''stars'', PInt 10), (''forks'', PInt 2), (''watchers'', PInt 1)]),
          Failure, Failure,
          Success (PDict [(''stars'', PInt 10), (''forks'', PInt 2), (''watchers'', PInt 1)]),
          Success (PDict [(''stars'', PInt 10), (''forks'', PInt 2), (''watchers'', PInt 1)])]) = 2"
proof -
  let ?urls = "[''https://github.com/owner/repo'', ''https://github.com/gone/repo'',
        ''https://github.com/solo'', ''https://github.com/owner/repo'',
        ''https://github.com/owner/repo'']"
  let ?rec = "PDict [(''stars'', PInt 10), (''forks'', PInt 2), (''watchers'', PInt 1)]"
  let ?os = "[Success ?rec, Failure, Failure, Success ?rec, Success ?rec]"
  have n: "(1::int) \<le> 2" by simp
  have o: "outcomes budget_env (request_headers budget_env) ?urls [] = ?os"
    by (rule budget_outcomes)
  have a: "spec_attempted 2 0 ?os = 3" by simp
  note t = fetcher_stops_at_budget[OF n o[symmetric] a[symmetric]]
  from t have "get_github_repo_popularity budget_env ?urls 2 []
           = (spec_fetch 2 0 (zip ?urls ?os) [],
              trace_of_attempts budget_env (request_headers budget_env) (take 3 ?urls) [])"
    by (elim conjE)
  then have r: "get_github_repo_popularity budget_env ?urls 2 []
     = ([(''https://github.com/owner/repo'', ?rec)],
        [Get ''https://api.github.com/repos/owner/repo'' [],
         Get ''https://api.github.com/repos/gone/repo'' []])"
    by (simp add: budget_headers budget_attempts)
  have lt: "(3::nat) < length ?urls" by simp
  from t have "3 < length ?urls \<longrightarrow>
              counter_after 0 (take 3 ?os) = 2 \<and> nat 2 \<le> 3
              \<and> drop (3 - nat 2) (take 3 ?os) = replicate (nat 2) Failure"
    by (elim conjE)
  with lt have c: "counter_after 0 (take 3 ?os) = 2" by (elim impE conjE)
  from n o a r c show ?thesis by (intro conjI)
qed

section \<open>The rate limit\<close>












section \<open>The stored records\<close>






section \<open>Sorting\<close>










section \<open>The snapshot round trip\<close>









section \<open>The spec's example\<close>

text \<open>The example of the spec: the example table filtered with a minimum of 6 stars and
  sorted by stars in the default direction is the single row \<^verbatim>\<open>a/b\<close>.\<close>

lemma spec_example:
  "sort_data (filter_data demo_table (Some 6) None None None None None) (Some ''stars'') None
     = Inr [\<lparr>url = ''a/b'', stars = 10, forks = 2, watchers = 1\<rparr>]"
  by (simp add: filter_data_def demo_table_def sort_data_def metric_def sort_values_def)

end
